theory Spec2Isabelle
  imports Complex_Main "HOL-Library.Char_ord" "HOL-Library.List_Lexorder"
    "HOL-Library.Product_Lexorder"
begin

section \<open>Data model\<close>

text \<open>
  Python strings are modelled as \<open>string\<close>; a \<open>char\<close> stands for one code point
  below 256. Similarity scores, thresholds and cutoffs are Python numbers and are
  modelled as exact reals. Strings are ordered as Python orders them: by code
  point, lexicographically, a proper prefix first.
\<close>

datatype error = ValueError | IndexError | AttributeError | APIError

text \<open>A scorer is a library function from two strings to a similarity score.\<close>

type_synonym scorer = "string \<Rightarrow> string \<Rightarrow> real"

section \<open>The oracle step: \<open>gpt_match\<close> of the application script\<close>

text \<open>
  \<open>str.isspace\<close> on the code points below 256: tab to carriage return, the four
  separators 28 to 31, space, NEL (133) and the no-break space (160).
\<close>

definition isspace :: "char \<Rightarrow> bool" where
  "isspace c = (of_char c \<in> {9, 10, 11, 12, 13, 28, 29, 30, 31, 32, 133, 160 :: nat})"

text \<open>\<open>str.strip()\<close> without argument: leading and trailing whitespace removed.\<close>

definition strip :: "string \<Rightarrow> string" where
  "strip s = rev (dropWhile isspace (rev (dropWhile isspace s)))"

text \<open>
  The remote call \<open>client.chat.completions.create\<close> is a parameter. Of the request
  only the sheet name and the master list vary, so the call is a function of these
  two. It either raises (\<open>Inl\<close>) or returns a response, of which the code reads
  \<open>resp.choices\<close> and, per choice, \<open>message.content\<close>: a string, or \<open>None\<close>.
\<close>

type_synonym completion = "string option list"

type_synonym client = "string \<Rightarrow> string list \<Rightarrow> error + completion"

text \<open>
  The body of the \<open>try\<close> block of \<open>gpt_match\<close>: the call, then
  \<open>resp.choices[0].message.content.strip()\<close>. Indexing an empty list of choices and
  calling \<open>strip\<close> on \<open>None\<close> raise inside the block.
\<close>

definition gpt_choice :: "client \<Rightarrow> string list \<Rightarrow> string \<Rightarrow> error + string" where
  "gpt_choice client master name =
     (case client name master of
        Inl e \<Rightarrow> Inl e
      | Inr choices \<Rightarrow>
          (case choices of
             [] \<Rightarrow> Inl IndexError
           | None # _ \<Rightarrow> Inl AttributeError
           | Some content # _ \<Rightarrow> Inr (strip content)))"

text \<open>
  \<open>gpt_match\<close>: \<open>except Exception: return ""\<close>, then
  \<open>return choice if choice in master else ""\<close>.
\<close>

definition gpt_match :: "client \<Rightarrow> string list \<Rightarrow> string \<Rightarrow> string" where
  "gpt_match client master name =
     (case gpt_choice client master name of
        Inl e \<Rightarrow> ''''
      | Inr choice \<Rightarrow> if choice \<in> set master then choice else '''')"

text \<open>Two canned clients: one that answers with a fixed text, one that raises.\<close>

definition replying :: "string \<Rightarrow> client" where
  "replying reply name master = Inr [Some reply]"

definition failing :: "error \<Rightarrow> client" where
  "failing e name master = Inl e"

section \<open>Library calls of the deterministic step\<close>

text \<open>
  RapidFuzz and difflib are libraries, not code of the repository. Their scorers
  (\<open>fuzz.partial_ratio\<close>, \<open>SequenceMatcher.ratio\<close>) are parameters of the model; the
  two selection routines the repository calls are written out below as their
  documentation describes them.
\<close>

text \<open>
  \<open>process.extractOne(query, choices, scorer=...)\<close>: every choice is scored against
  the query in list order; the result is the choice with the highest score together
  with that score, the first such choice on a tie, and \<open>None\<close> for no choices. A new
  choice replaces the best one only if its score is strictly greater.
\<close>

fun extractOne_loop ::
  "scorer \<Rightarrow> string \<Rightarrow> string list \<Rightarrow> (string \<times> real) option \<Rightarrow> (string \<times> real) option"
where
  "extractOne_loop sc query [] result = result"
| "extractOne_loop sc query (choice # choices) result =
     (let score = sc query choice
      in extractOne_loop sc query choices
           (case result of
              None \<Rightarrow> Some (choice, score)
            | Some (best, best_score) \<Rightarrow>
                if score > best_score then Some (choice, score) else result))"

definition extractOne :: "scorer \<Rightarrow> string \<Rightarrow> string list \<Rightarrow> (string \<times> real) option" where
  "extractOne sc query choices = extractOne_loop sc query choices None"

text \<open>
  \<open>heapq.nlargest(n, xs)\<close>: for \<open>n = 1\<close> it is \<open>max\<close> over the items (empty result
  for no items), otherwise the first \<open>n\<close> items of the list sorted in descending
  order.
\<close>

definition nlargest :: "nat \<Rightarrow> ('a::linorder) list \<Rightarrow> 'a list" where
  "nlargest n xs =
     (if n = 1 then (case xs of [] \<Rightarrow> [] | x # rest \<Rightarrow> [fold max rest x])
      else take n (rev (sort xs)))"

text \<open>
  \<open>difflib.get_close_matches(word, possibilities, n, cutoff)\<close>: \<open>ValueError\<close> unless
  \<open>n > 0\<close> and \<open>0.0 <= cutoff <= 1.0\<close>; then the possibilities \<open>x\<close> whose ratio
  against the word reaches the cutoff are collected as pairs \<open>(ratio, x)\<close>, and the
  strings of the \<open>n\<close> largest pairs are returned. (The two quick ratios that difflib
  tests first are upper bounds of the ratio and only save time.) The ratio is that of
  \<open>SequenceMatcher\<close> with \<open>x\<close> as first and the word as second sequence.
\<close>

definition get_close_matches ::
  "scorer \<Rightarrow> string \<Rightarrow> string list \<Rightarrow> int \<Rightarrow> real \<Rightarrow> error + string list"
where
  "get_close_matches ratio word possibilities n cutoff =
     (if \<not> n > 0 then Inl ValueError
      else if \<not> (0 \<le> cutoff \<and> cutoff \<le> 1) then Inl ValueError
      else Inr (map snd (nlargest (nat n)
             [(ratio x word, x). x \<leftarrow> possibilities, ratio x word \<ge> cutoff])))"

section \<open>\<open>match_vendor\<close> of \<open>dcvt/match.py\<close>\<close>

text \<open>The library calls a run makes, in order.\<close>

datatype call =
    ExtractOne string "string list"
  | GetCloseMatches string "string list" int real
  | GptMatch string

text \<open>
  \<open>rapidfuzz\<close> is the outcome of the guarded import: \<open>None\<close> when it failed (then
  \<open>process\<close> and \<open>fuzz\<close> are \<open>None\<close> and \<open>_RAPIDFUZZ\<close> is false), otherwise the
  scorer \<open>fuzz.partial_ratio\<close>. \<open>ratio\<close> is difflib's. The run returns the library
  calls it made and what the function returns or raises.
\<close>

definition match_vendor_run ::
  "scorer option \<Rightarrow> scorer \<Rightarrow> string \<Rightarrow> string list \<Rightarrow> real \<Rightarrow> bool option
     \<Rightarrow> call list \<times> (error + string)"
where
  "match_vendor_run rapidfuzz ratio name master threshold use_rapidfuzz =
     (let master_list = master
      in if name = [] \<or> master_list = [] then ([], Inr '''')
         else
           let use = (case use_rapidfuzz of None \<Rightarrow> rapidfuzz \<noteq> None | Some b \<Rightarrow> b)
           in case (if use then rapidfuzz else None) of
                Some partial_ratio \<Rightarrow>
                  ([ExtractOne name master_list],
                   case extractOne partial_ratio name master_list of
                     Some (choice, score) \<Rightarrow>
                       if score \<ge> threshold then Inr choice else Inr ''''
                   | None \<Rightarrow> Inr '''')
              | None \<Rightarrow>
                  let cutoff = max 0 (min 1 (threshold / 100))
                  in ([GetCloseMatches name master_list 1 cutoff],
                      case get_close_matches ratio name master_list 1 cutoff of
                        Inl e \<Rightarrow> Inl e
                      | Inr matches \<Rightarrow>
                          (case matches of [] \<Rightarrow> Inr '''' | m # _ \<Rightarrow> Inr m)))"

definition match_vendor ::
  "scorer option \<Rightarrow> scorer \<Rightarrow> string \<Rightarrow> string list \<Rightarrow> real \<Rightarrow> bool option \<Rightarrow> error + string"
where
  "match_vendor rapidfuzz ratio name master threshold use_rapidfuzz =
     snd (match_vendor_run rapidfuzz ratio name master threshold use_rapidfuzz)"

definition match_vendor_calls ::
  "scorer option \<Rightarrow> scorer \<Rightarrow> string \<Rightarrow> string list \<Rightarrow> real \<Rightarrow> bool option \<Rightarrow> call list"
where
  "match_vendor_calls rapidfuzz ratio name master threshold use_rapidfuzz =
     fst (match_vendor_run rapidfuzz ratio name master threshold use_rapidfuzz)"

section \<open>The per-sheet matching of the application script\<close>

text \<open>
  Lines 156 to 160: \<open>vendor = ""\<close>, and if RapidFuzz was imported, the best choice
  for the sheet title replaces it when its score reaches the threshold.
\<close>

definition fuzzy_step ::
  "scorer option \<Rightarrow> string list \<Rightarrow> real \<Rightarrow> string \<Rightarrow> call list \<times> string"
where
  "fuzzy_step rapidfuzz master threshold title =
     (case rapidfuzz of
        None \<Rightarrow> ([], '''')
      | Some partial_ratio \<Rightarrow>
          ([ExtractOne title master],
           case extractOne partial_ratio title master of
             Some (choice, score) \<Rightarrow> if score \<ge> threshold then choice else ''''
           | None \<Rightarrow> ''''))"

text \<open>
  Lines 162 to 163: \<open>if not vendor and gpt_available: vendor = gpt_match(ws.title)\<close>.
  \<open>gpt\<close> is the client, \<open>None\<close> when \<open>gpt_available\<close> is false.
\<close>

definition sheet_vendor_run ::
  "scorer option \<Rightarrow> client option \<Rightarrow> string list \<Rightarrow> real \<Rightarrow> string \<Rightarrow> call list \<times> string"
where
  "sheet_vendor_run rapidfuzz gpt master threshold title =
     (case fuzzy_step rapidfuzz master threshold title of
        (calls, vendor) \<Rightarrow>
          (case (if vendor = '''' then gpt else None) of
             Some client \<Rightarrow> (calls @ [GptMatch title], gpt_match client master title)
           | None \<Rightarrow> (calls, vendor)))"

definition sheet_vendor ::
  "scorer option \<Rightarrow> client option \<Rightarrow> string list \<Rightarrow> real \<Rightarrow> string \<Rightarrow> string"
where
  "sheet_vendor rapidfuzz gpt master threshold title =
     snd (sheet_vendor_run rapidfuzz gpt master threshold title)"

section \<open>The master list\<close>





section \<open>The library scorers on concrete strings\<close>

text \<open>
  The theorems below hold for every scorer. To run the matcher on concrete
  strings, the two scorers are written out here as the libraries document them.

  \<open>fuzz.ratio\<close> is the normalised Indel similarity: with \<open>lcs\<close> the length of a
  longest common subsequence, \<open>200 * lcs / (len1 + len2)\<close>, and 100 for two empty
  strings.
\<close>

fun lcs :: "'a list \<Rightarrow> 'a list \<Rightarrow> nat" where
  "lcs [] ys = 0"
| "lcs (x # xs) [] = 0"
| "lcs (x # xs) (y # ys) =
     (if x = y then Suc (lcs xs ys) else max (lcs xs (y # ys)) (lcs (x # xs) ys))"

definition fuzz_ratio :: scorer where
  "fuzz_ratio s1 s2 =
     (if s1 = [] \<and> s2 = [] then 100
      else 200 * real (lcs s1 s2) / real (length s1 + length s2))"

text \<open>
  \<open>fuzz.partial_ratio\<close> aligns the shorter string \<open>s1\<close> with the substrings of the
  longer string \<open>s2\<close>: the prefixes shorter than \<open>s1\<close>, the windows as long as
  \<open>s1\<close>, and the suffixes not longer than \<open>s1\<close>; a substring is tried only if the
  character at its inner end occurs in \<open>s1\<close>. The score is the best \<open>fuzz.ratio\<close>
  of \<open>s1\<close> against such a substring. For strings of equal length both roles are
  tried; an empty string scores 0 against a non-empty one and 100 against itself.
\<close>

definition windows :: "string \<Rightarrow> string \<Rightarrow> string list" where
  "windows s1 s2 =
     (let len1 = length s1; len2 = length s2
      in [take i s2. i \<leftarrow> [1..<len1], s2 ! (i - 1) \<in> set s1]
       @ [take len1 (drop i s2). i \<leftarrow> [0..<len2 - len1], s2 ! (i + len1 - 1) \<in> set s1]
       @ [drop i s2. i \<leftarrow> [len2 - len1..<len2], s2 ! i \<in> set s1])"

definition partial_ratio_impl :: scorer where
  "partial_ratio_impl s1 s2 = fold max [fuzz_ratio s1 w. w \<leftarrow> windows s1 s2] 0"

definition partial_ratio :: scorer where
  "partial_ratio s1 s2 =
     (if s1 = [] \<or> s2 = [] then (if s1 = [] \<and> s2 = [] then 100 else 0)
      else
        let shorter = (if length s1 \<le> length s2 then s1 else s2);
            longer = (if length s1 \<le> length s2 then s2 else s1);
            res = partial_ratio_impl shorter longer
        in if res \<noteq> 100 \<and> length s1 = length s2
           then max res (partial_ratio_impl longer shorter) else res)"

text \<open>
  \<open>SequenceMatcher(None, a, b).ratio()\<close> is \<open>2 * M / T\<close>, with \<open>T\<close> the total
  length and \<open>M\<close> the number of matched characters: the longest common block
  (the one starting earliest in \<open>a\<close>, then earliest in \<open>b\<close>) is matched, then
  the pieces to its left and the pieces to its right, recursively. The ratio of two
  empty strings is 1. (The automatic junk heuristic of difflib only concerns second
  sequences of 200 characters and more and is left out.)
\<close>

fun common_prefix :: "'a list \<Rightarrow> 'a list \<Rightarrow> nat" where
  "common_prefix (x # xs) (y # ys) = (if x = y then Suc (common_prefix xs ys) else 0)"
| "common_prefix xs ys = 0"

definition find_longest_match :: "'a list \<Rightarrow> 'a list \<Rightarrow> nat \<times> nat \<times> nat" where
  "find_longest_match a b =
     (let starts = [(i, j). i \<leftarrow> [0..<length a], j \<leftarrow> [0..<length b]];
          size = (\<lambda>(i, j). common_prefix (drop i a) (drop j b));
          bestsize = fold max (map size starts) 0
      in if bestsize = 0 then (0, 0, 0)
         else case find (\<lambda>p. size p = bestsize) starts of
                Some (i, j) \<Rightarrow> (i, j, bestsize)
              | None \<Rightarrow> (0, 0, 0))"

function matched :: "'a list \<Rightarrow> 'a list \<Rightarrow> nat" where
  "matched a b =
     (case find_longest_match a b of
        (i, j, k) \<Rightarrow>
          if k = 0 then 0
          else k + matched (take i a) (take j b) + matched (drop (i + k) a) (drop (j + k) b))"
  by pat_completeness auto
termination
proof (relation "measure (\<lambda>(a, b). length a + length b)")
  have bounds: "i < length a \<and> j < length b"
    if "(i, y) = find_longest_match a b" "(j, k) = y" "k \<noteq> 0"
    for a b :: "'a list" and i j k y
  proof -
    let ?starts = "[(i, j). i \<leftarrow> [0..<length a], j \<leftarrow> [0..<length b]]"
    from that have "find_longest_match a b = (i, j, k)" by metis
    with \<open>k \<noteq> 0\<close> obtain P where "find P ?starts = Some (i, j)"
      by (auto simp: find_longest_match_def Let_def split: if_splits option.splits)
    then have "(i, j) \<in> set ?starts"
      unfolding find_Some_iff by (metis nth_mem)
    then show ?thesis by auto
  qed
  show "wf (measure (\<lambda>(a, b). length a + length b))" by simp
  show "((take i a, take j b), a, b) \<in> measure (\<lambda>(a, b). length a + length b)"
    if "(i, y) = find_longest_match a b" "(j, k) = y" "k \<noteq> 0"
    for a b :: "'a list" and i j k y
    using bounds [OF that] by simp
  show "((drop (i + k) a, drop (j + k) b), a, b) \<in> measure (\<lambda>(a, b). length a + length b)"
    if "(i, y) = find_longest_match a b" "(j, k) = y" "k \<noteq> 0"
    for a b :: "'a list" and i j k y
    using bounds [OF that] that(3) by simp arith
qed

definition seq_ratio :: scorer where
  "seq_ratio a b =
     (if length a + length b = 0 then 1
      else 2 * real (matched a b) / real (length a + length b))"

section \<open>Notions of the specification and of the proofs\<close>


text \<open>The cutoff that \<open>match_vendor\<close> computes from the threshold.\<close>

definition cutoff_of :: "real \<Rightarrow> real" where
  "cutoff_of threshold = max 0 (min 1 (threshold / 100))"

text \<open>The scored possibilities that \<open>get_close_matches\<close> keeps.\<close>

definition good :: "scorer \<Rightarrow> string \<Rightarrow> string list \<Rightarrow> real \<Rightarrow> (real \<times> string) list" where
  "good ratio word ps cutoff = [(ratio x word, x). x \<leftarrow> ps, ratio x word \<ge> cutoff]"

text \<open>The library calls of a sheet's run.\<close>

definition sheet_vendor_calls ::
  "scorer option \<Rightarrow> client option \<Rightarrow> string list \<Rightarrow> real \<Rightarrow> string \<Rightarrow> call list"
where
  "sheet_vendor_calls rapidfuzz gpt master threshold title =
     fst (sheet_vendor_run rapidfuzz gpt master threshold title)"

section \<open>Facts about the library routines\<close>

subsection \<open>\<open>extractOne\<close>\<close>

lemma extractOne_loop_cases:
  "extractOne_loop sc q cs r = Some (c, s) \<Longrightarrow> (c \<in> set cs \<and> s = sc q c) \<or> r = Some (c, s)"
proof (induction cs arbitrary: r)
  case Nil
  then show ?case by simp
next
  case (Cons x xs)
  from Cons.prems Cons.IH show ?case
    by (fastforce simp: Let_def split: option.splits if_splits)
qed

lemma extractOne_Some:
  "extractOne sc q cs = Some (c, s) \<Longrightarrow> c \<in> set cs \<and> s = sc q c"
  using extractOne_loop_cases [of sc q cs None c s] by (simp add: extractOne_def)

lemma extractOne_loop_None:
  "extractOne_loop sc q cs r = None \<longleftrightarrow> cs = [] \<and> r = None"
  by (induction cs arbitrary: r) (auto simp: Let_def split: option.splits)

lemma extractOne_None: "extractOne sc q cs = None \<longleftrightarrow> cs = []"
  by (simp add: extractOne_def extractOne_loop_None)

lemma extractOne_loop_append:
  "extractOne_loop sc q (xs @ ys) r = extractOne_loop sc q ys (extractOne_loop sc q xs r)"
  by (induction xs arbitrary: r) (simp_all add: Let_def)

lemma extractOne_loop_keep:
  "\<forall>x\<in>set cs. sc q x \<le> s \<Longrightarrow> extractOne_loop sc q cs (Some (b, s)) = Some (b, s)"
  by (induction cs) (simp_all add: Let_def)

lemma extractOne_loop_below:
  assumes "\<forall>x\<in>set cs. sc q x < hi"
    and "r = None \<or> (\<exists>b s. r = Some (b, s) \<and> s < hi)"
  shows "extractOne_loop sc q cs r = None
       \<or> (\<exists>b s. extractOne_loop sc q cs r = Some (b, s) \<and> s < hi)"
  using assms
proof (induction cs arbitrary: r)
  case Nil
  then show ?case by simp
next
  case (Cons x xs)
  let ?r' = "case r of None \<Rightarrow> Some (x, sc q x)
             | Some (best, best_score) \<Rightarrow>
                 if sc q x > best_score then Some (x, sc q x) else r"
  have "?r' = None \<or> (\<exists>b s. ?r' = Some (b, s) \<and> s < hi)"
    using Cons.prems by (auto split: option.splits)
  moreover have "\<forall>x\<in>set xs. sc q x < hi" using Cons.prems(1) by simp
  ultimately show ?case
    using Cons.IH [of ?r'] by (simp add: Let_def)
qed

text \<open>The first choice that reaches the highest score is the one returned.\<close>

lemma extractOne_first_top:
  assumes "\<forall>x\<in>set before. sc q x < hi" and "sc q r = hi"
    and "\<forall>x\<in>set after. sc q x \<le> hi"
  shows "extractOne sc q (before @ r # after) = Some (r, hi)"
proof -
  let ?acc = "extractOne_loop sc q before None"
  have acc: "?acc = None \<or> (\<exists>b s. ?acc = Some (b, s) \<and> s < hi)"
    using assms(1) extractOne_loop_below [of before sc q hi None] by simp
  have "extractOne_loop sc q (r # after) ?acc = Some (r, hi)"
    using acc assms(2,3) extractOne_loop_keep [of after sc q hi r]
    by (auto simp: Let_def)
  then show ?thesis
    by (simp add: extractOne_def extractOne_loop_append)
qed

subsection \<open>\<open>get_close_matches\<close> with \<open>n = 1\<close>\<close>

lemma nlargest_one_Max: "xs \<noteq> [] \<Longrightarrow> nlargest (Suc 0) xs = [Max (set xs)]"
proof (cases xs)
  case Nil
  assume "xs \<noteq> []"
  with Nil show ?thesis by simp
next
  case (Cons x rest)
  have "fold max rest x = Max (set (x # rest))"
    by (rule Max.set_eq_fold [symmetric])
  with Cons show ?thesis by (simp add: nlargest_def)
qed

lemma set_good:
  "set (good ratio word ps cutoff)
     = {(ratio x word, x) | x. x \<in> set ps \<and> cutoff \<le> ratio x word}"
  by (auto simp: good_def)


lemma get_close_matches_one:
  assumes "0 \<le> cutoff" "cutoff \<le> 1"
  shows "get_close_matches ratio word ps 1 cutoff =
           Inr (if good ratio word ps cutoff = [] then []
                else [snd (Max (set (good ratio word ps cutoff)))])"
proof (cases "good ratio word ps cutoff = []")
  case True
  with assms show ?thesis
    by (simp add: get_close_matches_def good_def [symmetric] nlargest_def)
next
  case False
  with assms show ?thesis
    by (simp add: get_close_matches_def good_def [symmetric] nlargest_one_Max)
qed

lemma Max_good:
  assumes "good ratio name master c \<noteq> []"
  shows "Max (set (good ratio name master c)) \<in> set (good ratio name master c)"
  using assms by (intro Max_in) simp_all

lemma difflib_result_member:
  assumes "good ratio name master c \<noteq> []"
  shows "snd (Max (set (good ratio name master c))) \<in> set master
       \<and> c \<le> ratio (snd (Max (set (good ratio name master c)))) name"
  using Max_good [OF assms] by (auto simp: set_good)

lemma good_mono:
  "c2 \<le> c1 \<Longrightarrow> set (good ratio w ps c1) \<subseteq> set (good ratio w ps c2)"
  by (auto simp: set_good)

text \<open>Lowering the cutoff below one that some possibility clears keeps the best pair.\<close>

lemma Max_good_lower:
  assumes "c2 \<le> c1" "good ratio w ps c1 \<noteq> []"
  shows "Max (set (good ratio w ps c2)) = Max (set (good ratio w ps c1))"
proof -
  let ?g1 = "set (good ratio w ps c1)" and ?g2 = "set (good ratio w ps c2)"
  have sub: "?g1 \<subseteq> ?g2" using assms(1) by (rule good_mono)
  have ne1: "?g1 \<noteq> {}" using assms(2) by simp
  then have ne2: "?g2 \<noteq> {}" using sub by auto
  have m1: "Max ?g1 \<in> ?g1" using ne1 by (intro Max_in) simp_all
  have m2: "Max ?g2 \<in> ?g2" using ne2 by (intro Max_in) simp_all
  have le: "Max ?g1 \<le> Max ?g2" using m1 sub by (intro Max_ge) auto
  then have "fst (Max ?g1) \<le> fst (Max ?g2)"
    by (auto simp: less_eq_prod_def)
  moreover have "c1 \<le> fst (Max ?g1)" using m1 by (auto simp: set_good)
  ultimately have "c1 \<le> fst (Max ?g2)" by simp
  with m2 have "Max ?g2 \<in> ?g1" by (auto simp: set_good)
  then have "Max ?g2 \<le> Max ?g1" by (intro Max_ge) auto
  with le show ?thesis by simp
qed

subsection \<open>The cutoff\<close>

lemma cutoff_of_range: "0 \<le> cutoff_of t \<and> cutoff_of t \<le> 1"
  by (simp add: cutoff_of_def)

lemma cutoff_of_mono: "t2 \<le> t1 \<Longrightarrow> cutoff_of t2 \<le> cutoff_of t1"
  by (simp add: cutoff_of_def max_def min_def)


section \<open>The three cases of \<open>match_vendor\<close>\<close>

lemma path_cases: "(\<exists>pr. rf = Some pr \<and> use \<noteq> Some False) \<or> rf = None \<or> use = Some False"
  by (cases rf) auto

lemma match_vendor_empty:
  "name = [] \<or> master = [] \<Longrightarrow> match_vendor_run rf ratio name master t use = ([], Inr [])"
  by (simp add: match_vendor_run_def)

lemma match_vendor_rapidfuzz:
  assumes "name \<noteq> []" "master \<noteq> []" "rf = Some pr" "use \<noteq> Some False"
  shows "match_vendor_run rf ratio name master t use =
           ([ExtractOne name master],
            case extractOne pr name master of
              Some (choice, score) \<Rightarrow> if score \<ge> t then Inr choice else Inr []
            | None \<Rightarrow> Inr [])"
  using assms by (auto simp: match_vendor_run_def split: option.splits)

lemma match_vendor_difflib:
  assumes "name \<noteq> []" "master \<noteq> []" "rf = None \<or> use = Some False"
  shows "match_vendor_run rf ratio name master t use =
           ([GetCloseMatches name master 1 (cutoff_of t)],
            Inr (if good ratio name master (cutoff_of t) = [] then []
                 else snd (Max (set (good ratio name master (cutoff_of t))))))"
proof -
  have "(if (case use of None \<Rightarrow> rf \<noteq> None | Some b \<Rightarrow> b) then rf else None) = None"
    using assms(3) by (auto split: option.splits)
  then show ?thesis
    using assms(1,2) cutoff_of_range [of t]
    by (simp add: match_vendor_run_def Let_def cutoff_of_def [symmetric] get_close_matches_one)
qed

section \<open>Properties of the oracle step\<close>

text \<open>
  C2, as stated, fails: the oracle returns \<open>'' Acme''\<close>, which is not equal to any
  entry of the master list \<open>[''Acme'']\<close>, and yet the oracle step yields \<open>''Acme''\<close>
  and not the empty string, because the reply is stripped before the membership test.
\<close>

theorem gpt_match_padded_reply_counterexample:
  "'' Acme'' \<notin> set [''Acme''] \<and>
   gpt_match (replying '' Acme'') [''Acme''] ''Acme 2024'' \<noteq> ''''"
  by (simp add: gpt_match_def gpt_choice_def replying_def strip_def isspace_def)

text \<open>
  C2, amended: if the oracle call raises, or its response has no choice or no
  content, or the string it returns is, after stripping leading and trailing
  whitespace, not equal to any entry of the master list, then \<open>gpt_match\<close> returns the
  empty string.
\<close>

theorem gpt_match_invalid_is_empty:
  assumes "(\<exists>e. client name master = Inl e)
         \<or> client name master = Inr []
         \<or> (\<exists>rest. client name master = Inr (None # rest))
         \<or> (\<exists>reply rest. client name master = Inr (Some reply # rest)
                \<and> strip reply \<notin> set master)"
  shows "gpt_match client master name = ''''"
  using assms by (auto simp: gpt_match_def gpt_choice_def)

theorem gpt_match_invalid_is_empty_witness:
  "gpt_match (failing APIError) [''Acme'', ''Beta LLC''] ''Acme 2024'' = '''' \<and>
   gpt_match (replying ''acme'') [''Acme'', ''Beta LLC''] ''Acme 2024'' = ''''"
proof -
  have 1: "\<exists>e. failing APIError ''Acme 2024'' [''Acme'', ''Beta LLC''] = Inl e"
    by (simp add: failing_def)
  have 2: "\<exists>reply rest. replying ''acme'' ''Acme 2024'' [''Acme'', ''Beta LLC'']
             = Inr (Some reply # rest) \<and> strip reply \<notin> set [''Acme'', ''Beta LLC'']"
    by (simp add: replying_def strip_def isspace_def)
  show ?thesis
    using gpt_match_invalid_is_empty [of "failing APIError" "''Acme 2024''" "[''Acme'', ''Beta LLC'']"]
      gpt_match_invalid_is_empty [of "replying ''acme''" "''Acme 2024''" "[''Acme'', ''Beta LLC'']"]
      1 2 by blast
qed

section \<open>Results of matching\<close>

lemma match_vendor_member:
  "\<exists>r. match_vendor rf ratio name master t use = Inr r \<and> (r = [] \<or> r \<in> set master)"
proof (cases "name = [] \<or> master = []")
  case True
  then show ?thesis by (simp add: match_vendor_def match_vendor_empty)
next
  case False
  then have ne: "name \<noteq> []" "master \<noteq> []" by simp_all
  from path_cases [of rf use] show ?thesis
  proof
    assume "\<exists>pr. rf = Some pr \<and> use \<noteq> Some False"
    then obtain pr where "rf = Some pr" "use \<noteq> Some False" by blast
    then show ?thesis
      using ne extractOne_Some [of pr name master]
      by (auto simp: match_vendor_def match_vendor_rapidfuzz split: option.splits)
  next
    assume "rf = None \<or> use = Some False"
    then show ?thesis
      using ne difflib_result_member [of ratio name master "cutoff_of t"]
      by (simp add: match_vendor_def match_vendor_difflib)
  qed
qed

lemma gpt_match_member:
  "gpt_match client master name = [] \<or> gpt_match client master name \<in> set master"
  by (simp add: gpt_match_def split: sum.splits)

lemma fuzzy_step_member:
  "snd (fuzzy_step rf master t title) = [] \<or> snd (fuzzy_step rf master t title) \<in> set master"
  using extractOne_Some [of _ title master]
  by (auto simp: fuzzy_step_def split: option.splits)

lemma sheet_vendor_member:
  "sheet_vendor rf gpt master t title = [] \<or> sheet_vendor rf gpt master t title \<in> set master"
proof (cases "snd (fuzzy_step rf master t title) = [] \<and> gpt \<noteq> None")
  case True
  then obtain client where "gpt = Some client" by auto
  with True show ?thesis
    using gpt_match_member [of client master title]
    by (auto simp: sheet_vendor_def sheet_vendor_run_def split: prod.splits)
next
  case False
  then show ?thesis
    using fuzzy_step_member [of rf master t title]
    by (auto simp: sheet_vendor_def sheet_vendor_run_def split: prod.splits option.splits)
qed

text \<open>
  C1. Whatever the query, the candidate list, the threshold, the scorers and the
  oracle do: \<open>match_vendor\<close> returns, and what it returns is the empty string or a
  member of the candidate list; so is the result of \<open>gpt_match\<close>, and so is the
  vendor that the script assigns to a sheet.
\<close>

theorem match_result_empty_or_member:
  "(\<exists>r. match_vendor rf ratio name master t use = Inr r \<and> (r = '''' \<or> r \<in> set master))
   \<and> (gpt_match client master name = '''' \<or> gpt_match client master name \<in> set master)
   \<and> (sheet_vendor rf gpt master t name = '''' \<or> sheet_vendor rf gpt master t name \<in> set master)"
  using match_vendor_member [of rf ratio name master t use]
    gpt_match_member [of client master name]
    sheet_vendor_member [of rf gpt master t name]
  by simp

theorem match_result_empty_or_member_witness:
  "match_vendor (Some partial_ratio) seq_ratio ''Acme Corp''
     [''Acme Corporation'', ''Beta LLC'', ''Gamma Inc''] 60 None = Inr ''Acme Corporation''
   \<and> gpt_match (replying ''beta llc'') [''Acme Corporation'', ''Beta LLC'', ''Gamma Inc''] ''Acme Corp'' = ''''
   \<and> sheet_vendor (Some partial_ratio) (Some (replying ''Beta LLC''))
        [''Acme Corporation'', ''Beta LLC'', ''Gamma Inc''] 60 ''Acme Corp''
        \<in> set [''Acme Corporation'', ''Beta LLC'', ''Gamma Inc'']"
proof -
  have 1: "match_vendor (Some partial_ratio) seq_ratio ''Acme Corp''
     [''Acme Corporation'', ''Beta LLC'', ''Gamma Inc''] 60 None = Inr ''Acme Corporation''"
    by code_simp
  have 2: "gpt_match (replying ''beta llc'') [''Acme Corporation'', ''Beta LLC'', ''Gamma Inc''] ''Acme Corp'' = ''''"
    by (simp add: gpt_match_def gpt_choice_def replying_def strip_def isspace_def)
  have 3: "sheet_vendor (Some partial_ratio) (Some (replying ''Beta LLC''))
        [''Acme Corporation'', ''Beta LLC'', ''Gamma Inc''] 60 ''Acme Corp'' \<noteq> ''''"
    by code_simp
  show ?thesis
    using 1 2 3 match_result_empty_or_member [of "Some partial_ratio" seq_ratio "''Acme Corp''"
      "[''Acme Corporation'', ''Beta LLC'', ''Gamma Inc'']" 60 None "replying ''beta llc''"
      "Some (replying ''Beta LLC'')"]
    by blast
qed

section \<open>Threshold monotonicity\<close>

text \<open>
  C4. With the scorers fixed: if \<open>match_vendor\<close> returns a non-empty result at
  threshold \<open>t1\<close> and \<open>t2 < t1\<close>, it returns a non-empty result at threshold \<open>t2\<close>
  (in fact the same one).
\<close>

theorem threshold_monotone:
  assumes "t2 < t1"
    and "match_vendor rf ratio q cand t1 use = Inr r1"
    and "r1 \<noteq> ''''"
  shows "\<exists>r2. match_vendor rf ratio q cand t2 use = Inr r2 \<and> r2 \<noteq> '''' \<and> r2 = r1"
proof -
  have ne: "q \<noteq> []" "cand \<noteq> []"
    using assms(2,3) by (auto simp: match_vendor_def match_vendor_run_def)
  from path_cases [of rf use] have "match_vendor rf ratio q cand t2 use = Inr r1"
  proof
    assume "\<exists>pr. rf = Some pr \<and> use \<noteq> Some False"
    then obtain pr where rf: "rf = Some pr" "use \<noteq> Some False" by blast
    show ?thesis
      using assms ne rf
      by (auto simp: match_vendor_def match_vendor_rapidfuzz split: option.splits if_splits)
  next
    assume d: "rf = None \<or> use = Some False"
    have g1: "good ratio q cand (cutoff_of t1) \<noteq> []"
      using assms(2,3) ne d by (auto simp: match_vendor_def match_vendor_difflib split: if_splits)
    have c: "cutoff_of t2 \<le> cutoff_of t1" using assms(1) by (intro cutoff_of_mono) simp
    have g2: "good ratio q cand (cutoff_of t2) \<noteq> []"
      using good_mono [OF c, of ratio q cand] g1 by auto
    show ?thesis
      using assms(2) ne d g1 g2 Max_good_lower [OF c g1]
      by (simp add: match_vendor_def match_vendor_difflib)
  qed
  with assms(3) show ?thesis by simp
qed

theorem threshold_monotone_witness:
  "(60 :: real) < 80
   \<and> match_vendor (Some partial_ratio) seq_ratio ''Acme Corp''
        [''Acme Corporation'', ''Beta LLC''] 80 None = Inr ''Acme Corporation''
   \<and> ''Acme Corporation'' \<noteq> ''''
   \<and> match_vendor (Some partial_ratio) seq_ratio ''Acme Corp''
        [''Acme Corporation'', ''Beta LLC''] 60 None = Inr ''Acme Corporation''
   \<and> (60 :: real) < 70
   \<and> match_vendor None seq_ratio ''Acme Corp''
        [''Acme Corporation'', ''Beta LLC''] 70 None = Inr ''Acme Corporation''
   \<and> match_vendor None seq_ratio ''Acme Corp''
        [''Acme Corporation'', ''Beta LLC''] 60 None = Inr ''Acme Corporation''"
proof -
  have a: "(60 :: real) < 80" and a': "(60 :: real) < 70" by simp_all
  have b: "match_vendor (Some partial_ratio) seq_ratio ''Acme Corp''
        [''Acme Corporation'', ''Beta LLC''] 80 None = Inr ''Acme Corporation''"
    by code_simp
  have b': "match_vendor None seq_ratio ''Acme Corp''
        [''Acme Corporation'', ''Beta LLC''] 70 None = Inr ''Acme Corporation''"
    by code_simp
  have c: "''Acme Corporation'' \<noteq> ''''" by simp
  show ?thesis
    using a a' b b' c threshold_monotone [OF a b c] threshold_monotone [OF a' b' c]
    by simp
qed

section \<open>Empty inputs\<close>

text \<open>
  C5. For every threshold, every scorer and every setting of \<open>use_rapidfuzz\<close>,
  \<open>match_vendor\<close> returns the empty string for an empty candidate list, whatever the
  query, and for an empty query, whatever the candidate list; in both cases it makes
  no library call, so nothing is scored. (\<open>match_vendor\<close> takes no oracle.)
\<close>

theorem empty_inputs_no_match:
  "match_vendor rf ratio name [] t use = Inr ''''
   \<and> match_vendor_calls rf ratio name [] t use = []
   \<and> match_vendor rf ratio '''' master t use = Inr ''''
   \<and> match_vendor_calls rf ratio '''' master t use = []"
  by (simp add: match_vendor_def match_vendor_calls_def match_vendor_empty)

theorem empty_inputs_no_match_witness:
  "match_vendor (Some partial_ratio) seq_ratio ''Any'' [] 80 None = Inr ''''
   \<and> match_vendor_calls (Some partial_ratio) seq_ratio ''Any'' [] 80 None = []
   \<and> match_vendor (Some partial_ratio) seq_ratio '''' [''Acme Corp'', ''Beta LLC''] 0 None = Inr ''''
   \<and> match_vendor_calls (Some partial_ratio) seq_ratio '''' [''Acme Corp'', ''Beta LLC''] 0 None = []"
  using empty_inputs_no_match [of "Some partial_ratio" seq_ratio "''Any''" 80 None
      "[''Acme Corp'', ''Beta LLC'']"]
    empty_inputs_no_match [of "Some partial_ratio" seq_ratio "''Any''" 0 None
      "[''Acme Corp'', ''Beta LLC'']"]
  by simp

section \<open>The difflib path\<close>



section \<open>No exception\<close>



section \<open>When the oracle is called\<close>

lemma fuzzy_step_calls:
  "fst (fuzzy_step rf master t title)
     = (case rf of None \<Rightarrow> [] | Some pr \<Rightarrow> [ExtractOne title master])"
  by (simp add: fuzzy_step_def split: option.splits)

lemma sheet_vendor_run_eq:
  "sheet_vendor_run rf gpt master t title =
     (if snd (fuzzy_step rf master t title) = [] \<and> gpt \<noteq> None
      then (fst (fuzzy_step rf master t title) @ [GptMatch title],
            gpt_match (the gpt) master title)
      else fuzzy_step rf master t title)"
  by (auto simp: sheet_vendor_run_def split: prod.splits option.splits)

text \<open>
  C7. In the script's matching of one sheet, the library calls are: one
  \<open>extractOne\<close> if RapidFuzz is imported, followed by one call of \<open>gpt_match\<close>
  exactly if the deterministic step left the vendor empty and a client is
  configured. So the oracle is called at most once, only after a deterministic step
  without accepted candidate; when that step accepts a candidate the oracle is not
  called and the candidate is the result; and no other scorer is ever run.
\<close>

theorem oracle_only_after_failed_step:
  "sheet_vendor_calls rf gpt master t title
     = (case rf of None \<Rightarrow> [] | Some pr \<Rightarrow> [ExtractOne title master])
       @ (if snd (fuzzy_step rf master t title) = '''' \<and> gpt \<noteq> None
          then [GptMatch title] else [])
   \<and> (GptMatch title \<in> set (sheet_vendor_calls rf gpt master t title)
        \<longleftrightarrow> snd (fuzzy_step rf master t title) = '''' \<and> gpt \<noteq> None)
   \<and> (snd (fuzzy_step rf master t title) \<noteq> ''''
        \<longrightarrow> GptMatch title \<notin> set (sheet_vendor_calls rf gpt master t title)
          \<and> sheet_vendor rf gpt master t title = snd (fuzzy_step rf master t title))
   \<and> length (filter (\<lambda>c. c = GptMatch title) (sheet_vendor_calls rf gpt master t title)) \<le> 1
   \<and> length (sheet_vendor_calls rf gpt master t title) \<le> 2
   \<and> (\<forall>c \<in> set (sheet_vendor_calls rf gpt master t title).
         c = ExtractOne title master \<or> c = GptMatch title)"
  by (auto simp: sheet_vendor_calls_def sheet_vendor_def sheet_vendor_run_eq fuzzy_step_calls
      split: option.splits)

theorem oracle_only_after_failed_step_witness:
  "snd (fuzzy_step (Some partial_ratio) [''Acme Corporation'', ''Beta LLC''] 80 ''Acme Corp'')
     = ''Acme Corporation''
   \<and> sheet_vendor_calls (Some partial_ratio) (Some (replying ''Beta LLC''))
        [''Acme Corporation'', ''Beta LLC''] 80 ''Acme Corp''
       = [ExtractOne ''Acme Corp'' [''Acme Corporation'', ''Beta LLC'']]
   \<and> sheet_vendor (Some partial_ratio) (Some (replying ''Beta LLC''))
        [''Acme Corporation'', ''Beta LLC''] 80 ''Acme Corp'' = ''Acme Corporation''
   \<and> snd (fuzzy_step (Some partial_ratio) [''Alpha'', ''Beta''] 95 ''Zeta'') = ''''
   \<and> sheet_vendor_calls (Some partial_ratio) (Some (replying ''Beta''))
        [''Alpha'', ''Beta''] 95 ''Zeta''
       = [ExtractOne ''Zeta'' [''Alpha'', ''Beta''], GptMatch ''Zeta'']
   \<and> sheet_vendor_calls (Some partial_ratio) None [''Alpha'', ''Beta''] 95 ''Zeta''
       = [ExtractOne ''Zeta'' [''Alpha'', ''Beta'']]"
proof -
  have a: "snd (fuzzy_step (Some partial_ratio) [''Acme Corporation'', ''Beta LLC''] 80 ''Acme Corp'')
     = ''Acme Corporation''"
    by code_simp
  have b: "snd (fuzzy_step (Some partial_ratio) [''Alpha'', ''Beta''] 95 ''Zeta'') = ''''"
    by code_simp
  show ?thesis
    using a b
      oracle_only_after_failed_step [of "Some partial_ratio" "Some (replying ''Beta LLC'')"
        "[''Acme Corporation'', ''Beta LLC'']" 80 "''Acme Corp''"]
      oracle_only_after_failed_step [of "Some partial_ratio" "Some (replying ''Beta'')"
        "[''Alpha'', ''Beta'']" 95 "''Zeta''"]
      oracle_only_after_failed_step [of "Some partial_ratio" None
        "[''Alpha'', ''Beta'']" 95 "''Zeta''"]
    by simp
qed

section \<open>The master list is distinct and in first-seen order\<close>












section \<open>Whitespace around the oracle's reply\<close>

lemma strip_padding:
  assumes "\<forall>c\<in>set l. isspace c" and "\<forall>c\<in>set r. isspace c"
    and "e \<noteq> []" and "\<not> isspace (hd e)" and "\<not> isspace (last e)"
  shows "strip (l @ e @ r) = e"
proof -
  from assms(3) obtain x xs where e: "e = x # xs" by (cases e) auto
  with assms(4) have x: "\<not> isspace x" by simp
  have "dropWhile isspace (l @ e @ r) = dropWhile isspace (e @ r)"
    using assms(1) by (intro dropWhile_append2) auto
  also have "\<dots> = e @ r" using e x by simp
  finally have 1: "dropWhile isspace (l @ e @ r) = e @ r" .
  from assms(3) have re: "rev e \<noteq> []" by simp
  then obtain y ys where rev_e: "rev e = y # ys" by (cases "rev e") auto
  have "hd (rev e) = last e" using assms(3) by (simp add: hd_rev)
  with rev_e assms(5) have y: "\<not> isspace y" by simp
  have "dropWhile isspace (rev r @ rev e) = dropWhile isspace (rev e)"
    using assms(2) by (intro dropWhile_append2) auto
  also have "\<dots> = rev e" using rev_e y by simp
  finally have 2: "dropWhile isspace (rev r @ rev e) = rev e" .
  show ?thesis by (simp add: strip_def 1 2)
qed

text \<open>
  C10, as stated, fails for an entry that itself carries surrounding whitespace:
  the master list holds \<open>'' Acme''\<close> (with a leading space), the oracle returns it
  with one more space in front, and the result is the empty string, because the
  stripped reply \<open>''Acme''\<close> is not an entry.
\<close>

theorem gpt_match_padded_entry_counterexample:
  "'' Acme'' \<in> set ['' Acme'', ''Beta LLC'']
   \<and> ''  Acme'' = '' '' @ '' Acme''
   \<and> gpt_match (replying ''  Acme'') ['' Acme'', ''Beta LLC''] ''Acme 2024'' = ''''"
  by (simp add: gpt_match_def gpt_choice_def replying_def strip_def isspace_def)

text \<open>
  C10, amended: the oracle's reply is stripped of leading and trailing whitespace
  before the membership test; so for every reply that is an entry of the candidate
  list with whitespace added in front and behind, where the entry is non-empty and
  does not itself begin or end with whitespace, the result of \<open>gpt_match\<close> is that
  entry.
\<close>

theorem gpt_match_strips_reply:
  assumes "client name master = Inr (Some reply # rest)"
  shows "gpt_match client master name
           = (if strip reply \<in> set master then strip reply else '''')
       \<and> (reply = l @ e @ r \<and> (\<forall>c\<in>set l. isspace c) \<and> (\<forall>c\<in>set r. isspace c)
            \<and> e \<in> set master \<and> e \<noteq> '''' \<and> \<not> isspace (hd e) \<and> \<not> isspace (last e)
          \<longrightarrow> gpt_match client master name = e)"
proof -
  have g: "gpt_match client master name
           = (if strip reply \<in> set master then strip reply else '''')"
    using assms by (simp add: gpt_match_def gpt_choice_def)
  have "gpt_match client master name = e"
    if "reply = l @ e @ r" "\<forall>c\<in>set l. isspace c" "\<forall>c\<in>set r. isspace c"
      "e \<in> set master" "e \<noteq> ''''" "\<not> isspace (hd e)" "\<not> isspace (last e)"
    using that g strip_padding [of l r e] by simp
  with g show ?thesis by blast
qed

theorem gpt_match_strips_reply_witness:
  "replying ''  Beta LLC '' ''Acme 2024'' [''Acme'', ''Beta LLC''] = Inr [Some ''  Beta LLC '']
   \<and> ''  Beta LLC '' = ''  '' @ ''Beta LLC'' @ '' ''
   \<and> isspace CHR '' ''
   \<and> ''Beta LLC'' \<in> set [''Acme'', ''Beta LLC''] \<and> ''Beta LLC'' \<noteq> ''''
   \<and> \<not> isspace (hd ''Beta LLC'') \<and> \<not> isspace (last ''Beta LLC'')
   \<and> gpt_match (replying ''  Beta LLC '') [''Acme'', ''Beta LLC''] ''Acme 2024'' = ''Beta LLC''"
proof -
  have h: "replying ''  Beta LLC '' ''Acme 2024'' [''Acme'', ''Beta LLC''] = Inr [Some ''  Beta LLC '']"
    by (simp add: replying_def)
  have p: "''  Beta LLC '' = ''  '' @ ''Beta LLC'' @ '' ''
     \<and> (\<forall>c\<in>set ''  ''. isspace c) \<and> (\<forall>c\<in>set '' ''. isspace c)
     \<and> ''Beta LLC'' \<in> set [''Acme'', ''Beta LLC''] \<and> ''Beta LLC'' \<noteq> ''''
     \<and> \<not> isspace (hd ''Beta LLC'') \<and> \<not> isspace (last ''Beta LLC'')"
    by (simp add: isspace_def)
  note t = gpt_match_strips_reply [of "replying ''  Beta LLC ''" "''Acme 2024''"
      "[''Acme'', ''Beta LLC'']" "''  Beta LLC ''" "[]" "''  ''" "''Beta LLC''" "'' ''", OF h]
  have r: "gpt_match (replying ''  Beta LLC '') [''Acme'', ''Beta LLC''] ''Acme 2024'' = ''Beta LLC''"
    by (rule mp [OF t [THEN conjunct2] p])
  have q: "''  Beta LLC '' = ''  '' @ ''Beta LLC'' @ '' ''" "isspace CHR '' ''"
    "''Beta LLC'' \<in> set [''Acme'', ''Beta LLC'']" "''Beta LLC'' \<noteq> ''''"
    "\<not> isspace (hd ''Beta LLC'')" "\<not> isspace (last ''Beta LLC'')"
    by (simp_all add: isspace_def)
  show ?thesis
    by (intro conjI h q r)
qed

section \<open>A member of the list as query, at threshold 0\<close>

lemma cutoff_of_zero: "cutoff_of 0 = 0"
  by (simp add: cutoff_of_def)

lemma rapidfuzz_first_top:
  assumes "q \<noteq> []" and "rf = Some pr" and "use \<noteq> Some False"
    and "\<forall>x\<in>set before. pr q x < 100" and "pr q r = 100"
    and "\<forall>x\<in>set after. pr q x \<le> 100"
  shows "match_vendor rf ratio q (before @ r # after) 0 use = Inr r"
  using assms extractOne_first_top [of before pr q 100 r after]
  by (simp add: match_vendor_def match_vendor_rapidfuzz)

lemma difflib_exact:
  assumes "c \<in> set master" and "rf = None \<or> use = Some False"
    and "ratio c c = 1" and "\<forall>x\<in>set master. x \<noteq> c \<longrightarrow> ratio x c < 1"
  shows "match_vendor rf ratio c master 0 use = Inr c"
proof (cases "c = []")
  case True
  then show ?thesis by (simp add: match_vendor_def match_vendor_empty)
next
  case False
  from assms(1) have ne: "master \<noteq> []" by auto
  let ?g = "good ratio c master 0"
  have mem: "(1, c) \<in> set ?g"
    using assms(1,3) by (auto simp: set_good)
  then have g: "?g \<noteq> []" by auto
  have "Max (set ?g) = (1, c)"
  proof (rule Max_eqI)
    show "finite (set ?g)" by simp
    show "(1, c) \<in> set ?g" by (rule mem)
    fix y assume "y \<in> set ?g"
    then obtain x where y: "y = (ratio x c, x)" and x: "x \<in> set master"
      by (auto simp: set_good)
    show "y \<le> (1, c)"
    proof (cases "x = c")
      case True
      with y assms(3) show ?thesis by simp
    next
      case False
      with x assms(4) have "ratio x c < 1" by simp
      with y show ?thesis by (simp add: less_eq_prod_def)
    qed
  qed
  with False ne assms(2) g show ?thesis
    by (simp add: match_vendor_def match_vendor_difflib cutoff_of_zero)
qed

text \<open>
  C3, as stated, fails on the RapidFuzz path: \<open>partial_ratio\<close> gives the full
  score 100 to every candidate that contains the query, and \<open>extractOne\<close> keeps the
  first candidate with the highest score. With the list \<open>[''Acme Corp'', ''Acme'']\<close>
  and the query \<open>''Acme''\<close>, a member of the list, the result at threshold 0 is
  \<open>''Acme Corp''\<close>.
\<close>

theorem exact_member_counterexample:
  "''Acme'' \<in> set [''Acme Corp'', ''Acme'']
   \<and> match_vendor (Some partial_ratio) seq_ratio ''Acme'' [''Acme Corp'', ''Acme''] 0 None
       = Inr ''Acme Corp''
   \<and> ''Acme Corp'' \<noteq> ''Acme''"
  by code_simp

text \<open>
  C3, amended. Let \<open>c\<close> be an element of the candidate list, used as the query at
  threshold 0 without oracle. On the RapidFuzz path, with \<open>partial_ratio\<close> scoring
  \<open>c\<close> against itself 100 and nothing above 100: the result is the first candidate in
  list order whose score against \<open>c\<close> is 100 (for non-empty \<open>c\<close>); it is \<open>c\<close> itself if
  no candidate listed before \<open>c\<close> reaches 100. On the difflib path, with the ratio of
  \<open>c\<close> against itself 1 and of every other candidate below 1, the result is \<open>c\<close>.
\<close>

theorem exact_member_query:
  assumes "c \<in> set master"
  shows "(rf = Some pr \<and> use \<noteq> Some False \<and> c \<noteq> ''''
            \<and> pr c c = 100 \<and> (\<forall>x\<in>set master. pr c x \<le> 100)
          \<longrightarrow> (\<exists>before r after. master = before @ r # after
                 \<and> (\<forall>x\<in>set before. pr c x < 100) \<and> pr c r = 100
                 \<and> match_vendor rf ratio c master 0 use = Inr r))
       \<and> (rf = Some pr \<and> use \<noteq> Some False
            \<and> pr c c = 100 \<and> (\<forall>x\<in>set master. pr c x \<le> 100)
            \<and> (\<forall>x\<in>set (takeWhile (\<lambda>x. x \<noteq> c) master). pr c x < 100)
          \<longrightarrow> match_vendor rf ratio c master 0 use = Inr c)
       \<and> ((rf = None \<or> use = Some False)
            \<and> ratio c c = 1 \<and> (\<forall>x\<in>set master. x \<noteq> c \<longrightarrow> ratio x c < 1)
          \<longrightarrow> match_vendor rf ratio c master 0 use = Inr c)"
proof (intro conjI impI)
  assume a: "rf = Some pr \<and> use \<noteq> Some False \<and> c \<noteq> ''''
            \<and> pr c c = 100 \<and> (\<forall>x\<in>set master. pr c x \<le> 100)"
  with assms have "\<exists>x\<in>set master. pr c x = 100" by blast
  from split_list_first_prop [OF this]
  obtain before r after where m: "master = before @ r # after"
    and r: "pr c r = 100" and b: "\<forall>x\<in>set before. pr c x \<noteq> 100"
    by blast
  from a m b have b': "\<forall>x\<in>set before. pr c x < 100" by force
  from a m have af: "\<forall>x\<in>set after. pr c x \<le> 100" by simp
  from a have "match_vendor rf ratio c (before @ r # after) 0 use = Inr r"
    using b' r af by (intro rapidfuzz_first_top [of c rf pr]) simp_all
  with m b' r
  show "\<exists>before r after. master = before @ r # after
          \<and> (\<forall>x\<in>set before. pr c x < 100) \<and> pr c r = 100
          \<and> match_vendor rf ratio c master 0 use = Inr r"
    by blast
next
  assume a: "rf = Some pr \<and> use \<noteq> Some False
            \<and> pr c c = 100 \<and> (\<forall>x\<in>set master. pr c x \<le> 100)
            \<and> (\<forall>x\<in>set (takeWhile (\<lambda>x. x \<noteq> c) master). pr c x < 100)"
  show "match_vendor rf ratio c master 0 use = Inr c"
  proof (cases "c = []")
    case True
    then show ?thesis by (simp add: match_vendor_def match_vendor_empty)
  next
    case False
    from split_list_first [OF assms]
    obtain before after where m: "master = before @ c # after" and nb: "c \<notin> set before"
      by blast
    have "takeWhile (\<lambda>x. x \<noteq> c) (before @ c # after) = before"
      using nb by (subst takeWhile_append2) auto
    with a m have b: "\<forall>x\<in>set before. pr c x < 100" by simp
    from a m have af: "\<forall>x\<in>set after. pr c x \<le> 100" by simp
    from a have "match_vendor rf ratio c (before @ c # after) 0 use = Inr c"
      using False b af by (intro rapidfuzz_first_top [of c rf pr]) simp_all
    with m show ?thesis by simp
  qed
next
  assume a: "(rf = None \<or> use = Some False)
            \<and> ratio c c = 1 \<and> (\<forall>x\<in>set master. x \<noteq> c \<longrightarrow> ratio x c < 1)"
  with assms show "match_vendor rf ratio c master 0 use = Inr c"
    by (intro difflib_exact) simp_all
qed

theorem exact_member_query_witness:
  "''Acme'' \<in> set [''Acme Corp'', ''Acme'']
   \<and> partial_ratio ''Acme'' ''Acme'' = 100
   \<and> partial_ratio ''Acme'' ''Acme Corp'' \<le> 100
   \<and> (\<exists>before r after. [''Acme Corp'', ''Acme''] = before @ r # after
         \<and> (\<forall>x\<in>set before. partial_ratio ''Acme'' x < 100) \<and> partial_ratio ''Acme'' r = 100
         \<and> match_vendor (Some partial_ratio) seq_ratio ''Acme'' [''Acme Corp'', ''Acme''] 0 None
             = Inr r)
   \<and> takeWhile (\<lambda>x. x \<noteq> ''Acme'') [''Beta LLC'', ''Acme'', ''Acme Corp''] = [''Beta LLC'']
   \<and> partial_ratio ''Acme'' ''Beta LLC'' < 100
   \<and> match_vendor (Some partial_ratio) seq_ratio ''Acme'' [''Beta LLC'', ''Acme'', ''Acme Corp''] 0 None
       = Inr ''Acme''
   \<and> seq_ratio ''Acme'' ''Acme'' = 1
   \<and> seq_ratio ''Acme Corp'' ''Acme'' < 1
   \<and> match_vendor None seq_ratio ''Acme'' [''Acme Corp'', ''Acme''] 0 None = Inr ''Acme''"
proof -
  have m1: "''Acme'' \<in> set [''Acme Corp'', ''Acme'']" by simp
  have m2: "''Acme'' \<in> set [''Beta LLC'', ''Acme'', ''Acme Corp'']" by simp
  have s1: "partial_ratio ''Acme'' ''Acme'' = 100" by code_simp
  have s2: "\<forall>x\<in>set [''Acme Corp'', ''Acme'']. partial_ratio ''Acme'' x \<le> 100" by code_simp
  have s3: "\<forall>x\<in>set [''Beta LLC'', ''Acme'', ''Acme Corp'']. partial_ratio ''Acme'' x \<le> 100"
    by code_simp
  have s4: "\<forall>x\<in>set (takeWhile (\<lambda>x. x \<noteq> ''Acme'') [''Beta LLC'', ''Acme'', ''Acme Corp'']).
         partial_ratio ''Acme'' x < 100"
    by code_simp
  have d1: "seq_ratio ''Acme'' ''Acme'' = 1" by code_simp
  have d2: "\<forall>x\<in>set [''Acme Corp'', ''Acme'']. x \<noteq> ''Acme'' \<longrightarrow> seq_ratio x ''Acme'' < 1"
    by code_simp
  have ne: "''Acme'' \<noteq> ''''" by simp
  have u: "(None :: bool option) \<noteq> Some False" by simp
  note a = exact_member_query [where c = "''Acme''" and master = "[''Acme Corp'', ''Acme'']"
      and rf = "Some partial_ratio" and pr = partial_ratio and use = None and ratio = seq_ratio,
      OF m1, THEN conjunct1, THEN mp]
  have A: "\<exists>before r after. [''Acme Corp'', ''Acme''] = before @ r # after
         \<and> (\<forall>x\<in>set before. partial_ratio ''Acme'' x < 100) \<and> partial_ratio ''Acme'' r = 100
         \<and> match_vendor (Some partial_ratio) seq_ratio ''Acme'' [''Acme Corp'', ''Acme''] 0 None
             = Inr r"
    by (rule a) (intro conjI refl u ne s1 s2)
  note b = exact_member_query [where c = "''Acme''"
      and master = "[''Beta LLC'', ''Acme'', ''Acme Corp'']"
      and rf = "Some partial_ratio" and pr = partial_ratio and use = None and ratio = seq_ratio,
      OF m2, THEN conjunct2, THEN conjunct1, THEN mp]
  have B: "match_vendor (Some partial_ratio) seq_ratio ''Acme''
      [''Beta LLC'', ''Acme'', ''Acme Corp''] 0 None = Inr ''Acme''"
    by (rule b) (intro conjI refl u s1 s3 s4)
  note c = exact_member_query [where c = "''Acme''" and master = "[''Acme Corp'', ''Acme'']"
      and rf = None and pr = partial_ratio and use = None and ratio = seq_ratio,
      OF m1, THEN conjunct2, THEN conjunct2, THEN mp]
  have C: "match_vendor None seq_ratio ''Acme'' [''Acme Corp'', ''Acme''] 0 None = Inr ''Acme''"
    by (rule c) (intro conjI disjI1 refl d1 d2)
  have e1: "partial_ratio ''Acme'' ''Acme Corp'' \<le> 100" using s2 by simp
  have e2: "takeWhile (\<lambda>x. x \<noteq> ''Acme'') [''Beta LLC'', ''Acme'', ''Acme Corp''] = [''Beta LLC'']"
    by simp
  have e3: "partial_ratio ''Acme'' ''Beta LLC'' < 100" using s4 by simp
  have e4: "seq_ratio ''Acme Corp'' ''Acme'' < 1" using d2 by simp
  show ?thesis
    by (intro conjI m1 s1 e1 A e2 e3 B d1 e4 C)
qed

end
